theory Spec2Isabelle
  imports Main "HOL-Library.Sublist"
begin

section \<open>The pseudonymization engine of \<^verbatim>\<open>fileProcessor.js\<close>\<close>

text \<open>
  The embedding follows \<^verbatim>\<open>src/fileProcessor.js\<close>: \<^verbatim>\<open>getPseudonym\<close>,
  \<^verbatim>\<open>aggressiveMergeTokens\<close>, \<^verbatim>\<open>escapeRegexChars\<close>, \<^verbatim>\<open>buildFuzzyRegex\<close> and
  \<^verbatim>\<open>anonymizeText\<close>.

  Conventions of the model.
  \<^item> A JavaScript string is a \<^typ>\<open>string\<close>: one \<^typ>\<open>char\<close> per UTF-16 code unit, for
    the code units below 256.
  \<^item> The two module-level objects \<^verbatim>\<open>pseudonymCounters\<close> and \<^verbatim>\<open>pseudonymMapping\<close>
    are the fields of a record that every function takes and returns. Each is an
    object literal: a map from its own property names, behind which a lookup finds the
    properties of \<^verbatim>\<open>Object.prototype\<close> (\<^verbatim>\<open>constructor\<close>, \<^verbatim>\<open>toString\<close> and the others);
    a property found in neither is \<^verbatim>\<open>undefined\<close>.
  \<^item> A counter is a natural number or \<^verbatim>\<open>NaN\<close> (the JavaScript number stays an exact
    integer below \<open>2 ^ 53\<close>).
  \<^item> An exception is a value: \<open>anonymizeText\<close> returns the exception or the text, and
    the registry as the call left it.
  \<^item> The classifier is an external collaborator: its answer for the text is an
    argument of \<open>anonymizeText\<close>.
\<close>

subsection \<open>Character classes of the regular expressions\<close>

definition isDigit :: "char \<Rightarrow> bool" where
  "isDigit c = (let n = (of_char c :: nat) in 48 \<le> n \<and> n \<le> 57)"

definition isUpper :: "char \<Rightarrow> bool" where
  "isUpper c = (let n = (of_char c :: nat) in 65 \<le> n \<and> n \<le> 90)"

definition isLower :: "char \<Rightarrow> bool" where
  "isLower c = (let n = (of_char c :: nat) in 97 \<le> n \<and> n \<le> 122)"

text \<open>The class \<^verbatim>\<open>[a-zA-Z0-9]\<close>.\<close>

definition isAlnum :: "char \<Rightarrow> bool" where
  "isAlnum c = (isLower c \<or> isUpper c \<or> isDigit c)"

text \<open>The class \<^verbatim>\<open>\w\<close>, which is \<^verbatim>\<open>[A-Za-z0-9_]\<close>.\<close>

definition isWordChar :: "char \<Rightarrow> bool" where
  "isWordChar c = (isAlnum c \<or> c = CHR ''_'')"

text \<open>
  The class \<^verbatim>\<open>\s\<close> among the code units below 256: tab, line feed, vertical tab,
  form feed, carriage return, space and the no-break space. \<^verbatim>\<open>trim\<close> removes the same
  characters.
\<close>

definition isSpace :: "char \<Rightarrow> bool" where
  "isSpace c = (let n = (of_char c :: nat) in (9 \<le> n \<and> n \<le> 13) \<or> n = 32 \<or> n = 160)"

text \<open>The class \<^verbatim>\<open>[^\w\s.,'-]\<close> of the second replacement of the merger.\<close>

definition isDiscarded :: "char \<Rightarrow> bool" where
  "isDiscarded c =
     (\<not> (isWordChar c \<or> isSpace c \<or> c = CHR ''.'' \<or> c = CHR '','' \<or> c = CHR 0x27
          \<or> c = CHR ''-''))"

text \<open>
  The characters of \<^verbatim>\<open>/[-/\\^$*+?.()|[\]{}]/\<close>, which \<^verbatim>\<open>escapeRegexChars\<close> escapes.
\<close>

definition isRegexMeta :: "char \<Rightarrow> bool" where
  "isRegexMeta c = (c \<in> set [CHR ''-'', CHR ''/'', CHR 0x5C, CHR ''^'', CHR ''$'', CHR ''*'',
     CHR ''+'', CHR ''?'', CHR ''.'', CHR ''('', CHR '')'', CHR ''|'', CHR ''['', CHR '']'',
     CHR ''{'', CHR ''}''])"

text \<open>
  \<open>Canonicalize\<close> of a case-insensitive match without the unicode flag: the upper-case
  form. It is used against the literals of a pattern, which are word characters, and a
  code unit matches such a literal exactly when the two agree up to ASCII case.
\<close>

definition canonicalize :: "char \<Rightarrow> char" where
  "canonicalize c = (if isLower c then char_of (of_char c - (32::nat)) else c)"

subsection \<open>The pseudonym registry\<close>

text \<open>
  The properties of \<^verbatim>\<open>Object.prototype\<close>, which every object literal inherits: eleven
  built-in functions and the accessor \<^verbatim>\<open>__proto__\<close>, whose value for an object literal is
  \<^verbatim>\<open>Object.prototype\<close> itself.
\<close>

datatype objectMember =
  Constructor | DefineGetter | DefineSetter | HasOwnProperty | LookupGetter | LookupSetter
  | IsPrototypeOf | PropertyIsEnumerable | ToString | ValueOf | Proto | ToLocaleString

definition objectPrototype :: "string \<rightharpoonup> objectMember" where
  "objectPrototype =
     map_of [(''constructor'', Constructor), (''__defineGetter__'', DefineGetter),
       (''__defineSetter__'', DefineSetter), (''hasOwnProperty'', HasOwnProperty),
       (''__lookupGetter__'', LookupGetter), (''__lookupSetter__'', LookupSetter),
       (''isPrototypeOf'', IsPrototypeOf), (''propertyIsEnumerable'', PropertyIsEnumerable),
       (''toString'', ToString), (''valueOf'', ValueOf), (''__proto__'', Proto),
       (''toLocaleString'', ToLocaleString)]"

definition inherited :: "string \<Rightarrow> bool" where
  "inherited k = (objectPrototype k \<noteq> None)"

text \<open>The value of a counter, and what \<open>getPseudonym\<close> can return.\<close>

datatype jsNumber = Num nat | NaN

datatype jsValue = Str string | Member objectMember

record registry =
  pseudonymCounters :: "string \<rightharpoonup> jsNumber"
  pseudonymMapping :: "string \<rightharpoonup> string"

definition emptyRegistry :: registry where
  "emptyRegistry = \<lparr>pseudonymCounters = Map.empty, pseudonymMapping = Map.empty\<rparr>"

definition digitChar :: "nat \<Rightarrow> char" where
  "digitChar d = char_of (48 + d)"

text \<open>The decimal form of a counter inside the template literal.\<close>

function showNat :: "nat \<Rightarrow> string" where
  "showNat n = (if n < 10 then [digitChar n] else showNat (n div 10) @ [digitChar (n mod 10)])"
  by pat_completeness auto
termination
  by (relation "measure id") auto

declare showNat.simps [simp del]

definition showNumber :: "jsNumber \<Rightarrow> string" where
  "showNumber c = (case c of Num n \<Rightarrow> showNat n | NaN \<Rightarrow> ''NaN'')"

text \<open>
  \<^verbatim>\<open>if (pseudonymMapping[entityText])\<close>: the value of the lookup when it is truthy. An
  own property is a stored string, truthy when it is not empty; without an own
  property the lookup finds the inherited one, which is a function or an object and
  so truthy.
\<close>

definition mappingHit :: "registry \<Rightarrow> string \<Rightarrow> jsValue option" where
  "mappingHit r entityText =
     (case pseudonymMapping r entityText of
        None \<Rightarrow> map_option Member (objectPrototype entityText)
      | Some p \<Rightarrow> if p = [] then None else Some (Str p))"

text \<open>
  \<^verbatim>\<open>if (!pseudonymCounters[entityType]) pseudonymCounters[entityType] = 1\<close>: an own
  counter is falsy when it is 0 or \<^verbatim>\<open>NaN\<close>, an inherited property is truthy, a property
  found nowhere is falsy.
\<close>

definition counterTruthy :: "registry \<Rightarrow> string \<Rightarrow> bool" where
  "counterTruthy r entityType =
     (case pseudonymCounters r entityType of
        None \<Rightarrow> inherited entityType
      | Some (Num n) \<Rightarrow> n \<noteq> 0
      | Some NaN \<Rightarrow> False)"

definition initCounter :: "registry \<Rightarrow> string \<Rightarrow> (string \<rightharpoonup> jsNumber)" where
  "initCounter r entityType =
     (if counterTruthy r entityType then pseudonymCounters r
      else (pseudonymCounters r)(entityType \<mapsto> Num 1))"

text \<open>
  \<^verbatim>\<open>pseudonymCounters[entityType]++\<close>: the old value as a number, and the object with
  the new value stored. A value that is not a number (an inherited function or object,
  or \<^verbatim>\<open>undefined\<close>) reads as \<^verbatim>\<open>NaN\<close>, and \<^verbatim>\<open>NaN + 1\<close> is \<^verbatim>\<open>NaN\<close>. The store makes an
  own property, except under the name \<^verbatim>\<open>__proto__\<close>, where it calls the inherited setter,
  which ignores a number.
\<close>

definition postIncrement :: "(string \<rightharpoonup> jsNumber) \<Rightarrow> string \<Rightarrow> jsNumber \<times> (string \<rightharpoonup> jsNumber)" where
  "postIncrement counters entityType =
     (case counters entityType of
        Some (Num n) \<Rightarrow> (Num n, counters(entityType \<mapsto> Num (n + 1)))
      | Some NaN \<Rightarrow> (NaN, counters(entityType \<mapsto> NaN))
      | None \<Rightarrow>
          (NaN, if objectPrototype entityType = Some Proto then counters
                else counters(entityType \<mapsto> NaN)))"

definition getPseudonym :: "string \<Rightarrow> string \<Rightarrow> registry \<Rightarrow> jsValue \<times> registry" where
  "getPseudonym entityText entityType r =
     (case mappingHit r entityText of
        Some v \<Rightarrow> (v, r)
      | None \<Rightarrow>
          (let (n, counters) = postIncrement (initCounter r entityType) entityType;
               pseudonym = entityType @ ''_'' @ showNumber n
           in (Str pseudonym,
               \<lparr>pseudonymCounters = counters,
                pseudonymMapping = (pseudonymMapping r)(entityText \<mapsto> pseudonym)\<rparr>)))"

text \<open>A sequence of calls \<^verbatim>\<open>getPseudonym(text, type)\<close>, in order, on the shared registry.\<close>

fun resolveAll :: "(string \<times> string) list \<Rightarrow> registry \<Rightarrow> registry" where
  "resolveAll [] r = r"
| "resolveAll ((entityText, entityType) # cs) r =
     resolveAll cs (snd (getPseudonym entityText entityType r))"

subsection \<open>The merger\<close>

record prediction =
  word :: string
  entity :: string

record span =
  spanType :: string
  spanText :: string

text \<open>\<^verbatim>\<open>pred.entity.replace(/^(B-|I-)/, '')\<close>.\<close>

definition entityType :: "prediction \<Rightarrow> string" where
  "entityType pred =
     (if take 2 (entity pred) = ''B-'' \<or> take 2 (entity pred) = ''I-''
      then drop 2 (entity pred) else entity pred)"

definition trim :: "string \<Rightarrow> string" where
  "trim s = rev (dropWhile isSpace (rev (dropWhile isSpace s)))"

text \<open>
  \<^verbatim>\<open>pred.word.replace(/\s+/g, '').replace(/[^\w\s.,'-]/g, '')\<close>, then \<^verbatim>\<open>trim()\<close>.
\<close>

definition cleanWord :: "prediction \<Rightarrow> string" where
  "cleanWord pred =
     trim (filter (\<lambda>c. \<not> isDiscarded c) (filter (\<lambda>c. \<not> isSpace c) (word pred)))"

text \<open>
  The body of the \<^verbatim>\<open>for\<close> loop, on the two variables \<^verbatim>\<open>merged\<close> and \<^verbatim>\<open>current\<close>
  (\<open>None\<close> is \<^verbatim>\<open>null\<close>).
\<close>

fun mergeLoop :: "prediction list \<Rightarrow> span list \<Rightarrow> span option \<Rightarrow> span list \<times> span option" where
  "mergeLoop [] merged current = (merged, current)"
| "mergeLoop (pred # preds) merged current =
     (let type = entityType pred; w = cleanWord pred in
      if w = [] then mergeLoop preds merged current
      else
        (case current of
           None \<Rightarrow> mergeLoop preds merged (Some \<lparr>spanType = type, spanText = w\<rparr>)
         | Some cur \<Rightarrow>
             if spanType cur = type
             then mergeLoop preds merged (Some (cur\<lparr>spanText := spanText cur @ w\<rparr>))
             else mergeLoop preds (merged @ [cur]) (Some \<lparr>spanType = type, spanText = w\<rparr>)))"

text \<open>After the loop: \<^verbatim>\<open>if (current) merged.push(current)\<close>, and \<open>merged\<close> is returned.\<close>

fun pushCurrent :: "span list \<times> span option \<Rightarrow> span list" where
  "pushCurrent (merged, None) = merged"
| "pushCurrent (merged, Some cur) = merged @ [cur]"

text \<open>The argument \<open>None\<close> is a \<^verbatim>\<open>null\<close> or \<^verbatim>\<open>undefined\<close> prediction list.\<close>

definition aggressiveMergeTokens :: "prediction list option \<Rightarrow> span list" where
  "aggressiveMergeTokens predictions =
     (case predictions of
        None \<Rightarrow> []
      | Some preds \<Rightarrow>
          if length preds = 0 then [] else pushCurrent (mergeLoop preds [] None))"

subsection \<open>The fuzzy matcher\<close>

definition escapeRegexChars :: "string \<Rightarrow> string" where
  "escapeRegexChars str = concat (map (\<lambda>c. if isRegexMeta c then [CHR 0x5C, c] else [c]) str)"

text \<open>The piece \<^verbatim>\<open>[^a-zA-Z0-9]*\<close> that follows every character of the pattern.\<close>

definition gapSource :: string where
  "gapSource = ''[^a-zA-Z0-9]*''"

text \<open>The loop \<^verbatim>\<open>for (const char of noPunc) pattern += `${char}[^a-zA-Z0-9]*`\<close>.\<close>

fun patternLoop :: "string \<Rightarrow> string \<Rightarrow> string" where
  "patternLoop [] pattern = pattern"
| "patternLoop (c # cs) pattern = patternLoop cs (pattern @ c # gapSource)"

text \<open>
  A compiled expression with the flags \<^verbatim>\<open>ig\<close>: its pattern text, and the literals of the
  pattern in order, each followed by a greedy run of characters outside
  \<^verbatim>\<open>[a-zA-Z0-9]\<close>.
\<close>

datatype regExp = RegExp (source: string) (literals: "char list")

text \<open>
  \<^verbatim>\<open>new RegExp(pattern, 'ig')\<close> on the patterns the builder writes: a sequence of a word
  character followed by \<^verbatim>\<open>[^a-zA-Z0-9]*\<close>. \<open>None\<close> is the exception that the builder
  catches; a pattern of any other shape is outside this model of the constructor and
  is \<open>None\<close> as well.
\<close>

function compileLiterals :: "string \<Rightarrow> char list option" where
  "compileLiterals [] = Some []"
| "compileLiterals (c # rest) =
     (if isWordChar c \<and> take (length gapSource) rest = gapSource
      then map_option (Cons c) (compileLiterals (drop (length gapSource) rest))
      else None)"
  by pat_completeness auto
termination
  by (relation "measure length") auto

definition newRegExp :: "string \<Rightarrow> regExp option" where
  "newRegExp pattern = map_option (RegExp pattern) (compileLiterals pattern)"

definition buildFuzzyRegex :: "string \<Rightarrow> regExp option" where
  "buildFuzzyRegex mergedString =
     (let noPunc = filter isWordChar mergedString in
      if noPunc = [] then None
      else
        (let noPunc' = escapeRegexChars noPunc;
             pattern = patternLoop noPunc' []
         in if pattern = [] then None else newRegExp pattern))"

text \<open>
  The backtracking matcher at one position of the text. \<open>matchFrom\<close> is at a literal,
  \<open>matchGap\<close> inside the greedy run that follows one: it takes one more character first
  and gives it back when the rest of the pattern fails. The result is the length of
  the match.
\<close>

fun matchFrom :: "char list \<Rightarrow> string \<Rightarrow> nat option"
  and matchGap :: "char list \<Rightarrow> string \<Rightarrow> nat option" where
  "matchFrom [] s = Some 0"
| "matchFrom (c # cs) [] = None"
| "matchFrom (c # cs) (x # xs) =
     (if canonicalize x = canonicalize c then map_option Suc (matchGap cs xs) else None)"
| "matchGap cs [] = matchFrom cs []"
| "matchGap cs (x # xs) =
     (if \<not> isAlnum x
      then (case matchGap cs xs of Some n \<Rightarrow> Some (Suc n) | None \<Rightarrow> matchFrom cs (x # xs))
      else matchFrom cs (x # xs))"

text \<open>
  \<open>GetSubstitution\<close> for an expression without capture groups: \<^verbatim>\<open>$$\<close> is a dollar
  sign, \<^verbatim>\<open>$&\<close> the match, \<^verbatim>\<open>$`\<close> the text preceding it and \<^verbatim>\<open>$'\<close> the text following it;
  every other character stands for itself.
\<close>

fun getSubstitution :: "string \<Rightarrow> string \<Rightarrow> string \<Rightarrow> string \<Rightarrow> string" where
  "getSubstitution matched preceding following [] = []"
| "getSubstitution matched preceding following [c] = [c]"
| "getSubstitution matched preceding following (c # d # rest) =
     (if c = CHR ''$'' \<and> d = CHR ''$'' then CHR ''$'' # getSubstitution matched preceding following rest
      else if c = CHR ''$'' \<and> d = CHR ''&'' then matched @ getSubstitution matched preceding following rest
      else if c = CHR ''$'' \<and> d = CHR 0x60 then preceding @ getSubstitution matched preceding following rest
      else if c = CHR ''$'' \<and> d = CHR 0x27 then following @ getSubstitution matched preceding following rest
      else c # getSubstitution matched preceding following (d # rest))"

text \<open>
  \<^verbatim>\<open>processedText.replace(fuzzyRegex, pseudonym)\<close> with the global flag: the matches
  are found from left to right, each search starting where the last match ended (one
  character further when the match is empty); \<open>preceding\<close> is the text already passed.
\<close>

function replaceLoop :: "char list \<Rightarrow> string \<Rightarrow> string \<Rightarrow> string \<Rightarrow> string" where
  "replaceLoop lits replacement preceding [] =
     (case matchFrom lits [] of
        None \<Rightarrow> []
      | Some n \<Rightarrow> getSubstitution [] preceding [] replacement)"
| "replaceLoop lits replacement preceding (x # xs) =
     (case matchFrom lits (x # xs) of
        None \<Rightarrow> x # replaceLoop lits replacement (preceding @ [x]) xs
      | Some n \<Rightarrow>
          if n = 0
          then getSubstitution [] preceding (x # xs) replacement
               @ x # replaceLoop lits replacement (preceding @ [x]) xs
          else getSubstitution (take n (x # xs)) preceding (drop n (x # xs)) replacement
               @ replaceLoop lits replacement (preceding @ take n (x # xs)) (drop n (x # xs)))"
  by pat_completeness auto
termination
  by (relation "measure (\<lambda>(lits, replacement, preceding, s). length s)") auto

definition replaceAll :: "regExp \<Rightarrow> string \<Rightarrow> string \<Rightarrow> string" where
  "replaceAll rx replacement s = replaceLoop (literals rx) replacement [] s"

subsection \<open>The pipeline\<close>

datatype error = TypeError

text \<open>
  What \<^verbatim>\<open>replace\<close> gets from a replacement that is a function of \<^verbatim>\<open>Object.prototype\<close>:
  the function is called for a match with \<^verbatim>\<open>this\<close> undefined and the matched text as
  its first argument, and its result is converted to a string. \<^verbatim>\<open>Object\<close> wraps the
  matched text, which converts back to it; \<^verbatim>\<open>isPrototypeOf\<close> of a string is
  \<^verbatim>\<open>false\<close>; \<^verbatim>\<open>toString\<close> of undefined is \<^verbatim>\<open>[object Undefined]\<close>; the others convert
  \<^verbatim>\<open>this\<close> to an object and throw a \<^verbatim>\<open>TypeError\<close>.
\<close>

definition callMember :: "objectMember \<Rightarrow> string \<Rightarrow> error + string" where
  "callMember m matched =
     (case m of
        Constructor \<Rightarrow> Inr matched
      | IsPrototypeOf \<Rightarrow> Inr ''false''
      | ToString \<Rightarrow> Inr ''[object Undefined]''
      | _ \<Rightarrow> Inl TypeError)"

text \<open>
  The global replacement with a function as the replacement: as \<open>replaceLoop\<close>, with the
  result of the call in the place of each match; the first call that throws ends it.
\<close>

function replaceCallLoop :: "char list \<Rightarrow> (string \<Rightarrow> error + string) \<Rightarrow> string \<Rightarrow> error + string" where
  "replaceCallLoop lits f [] =
     (case matchFrom lits [] of
        None \<Rightarrow> Inr []
      | Some n \<Rightarrow> f [])"
| "replaceCallLoop lits f (x # xs) =
     (case matchFrom lits (x # xs) of
        None \<Rightarrow> map_sum id (Cons x) (replaceCallLoop lits f xs)
      | Some n \<Rightarrow>
          if n = 0
          then (case f [] of
                  Inl e \<Rightarrow> Inl e
                | Inr replacement \<Rightarrow>
                    map_sum id (\<lambda>rest. replacement @ x # rest) (replaceCallLoop lits f xs))
          else (case f (take n (x # xs)) of
                  Inl e \<Rightarrow> Inl e
                | Inr replacement \<Rightarrow>
                    map_sum id (\<lambda>rest. replacement @ rest)
                      (replaceCallLoop lits f (drop n (x # xs)))))"
  by pat_completeness auto
termination
  by (relation "measure (\<lambda>(lits, f, s). length s)") auto

text \<open>
  \<^verbatim>\<open>processedText.replace(fuzzyRegex, pseudonym)\<close> for what \<open>getPseudonym\<close> returned: a
  string is the replacement text; the object under \<^verbatim>\<open>__proto__\<close> is not callable and is
  converted to the replacement text \<^verbatim>\<open>[object Object]\<close>; a function is called for each
  match.
\<close>

definition replace :: "regExp \<Rightarrow> jsValue \<Rightarrow> string \<Rightarrow> error + string" where
  "replace rx pseudonym s =
     (case pseudonym of
        Str p \<Rightarrow> Inr (replaceAll rx p s)
      | Member Proto \<Rightarrow> Inr (replaceAll rx ''[object Object]'' s)
      | Member m \<Rightarrow> replaceCallLoop (literals rx) (callMember m) s)"

text \<open>
  The loop of \<^verbatim>\<open>anonymizeText\<close> over the merged spans, on \<^verbatim>\<open>processedText\<close> and the
  registry. An exception leaves the loop, with the registry as it is then.
\<close>

fun anonymizeLoop :: "span list \<Rightarrow> string \<Rightarrow> registry \<Rightarrow> (error + string) \<times> registry" where
  "anonymizeLoop [] processedText r = (Inr processedText, r)"
| "anonymizeLoop (obj # objs) processedText r =
     (let entityType = spanType obj; mergedString = spanText obj in
      if mergedString = [] then anonymizeLoop objs processedText r
      else
        (let (pseudonym, r') = getPseudonym mergedString entityType r in
         case buildFuzzyRegex mergedString of
           None \<Rightarrow> anonymizeLoop objs processedText r'
         | Some fuzzyRegex \<Rightarrow>
             (case replace fuzzyRegex pseudonym processedText of
                Inl e \<Rightarrow> (Inl e, r')
              | Inr replaced \<Rightarrow> anonymizeLoop objs replaced r')))"

text \<open>
  \<open>predictions\<close> is what the classifier returned for \<open>text\<close>.
\<close>

definition anonymizeText ::
  "prediction list option \<Rightarrow> string \<Rightarrow> registry \<Rightarrow> (error + string) \<times> registry" where
  "anonymizeText predictions text r = anonymizeLoop (aggressiveMergeTokens predictions) text r"

subsection \<open>Notions used to state the properties\<close>

text \<open>
  A prediction opens a span: its cleaned word is not empty, the span has its type and
  the span's text starts with its cleaned word.
\<close>

definition opens :: "prediction \<Rightarrow> span \<Rightarrow> bool" where
  "opens pred s =
     (cleanWord pred \<noteq> [] \<and> spanType s = entityType pred \<and> prefix (cleanWord pred) (spanText s))"

text \<open>
  The calls of a sequence that see their text for the first time, \<open>seen\<close> being the
  texts resolved before; and the number of them under one type.
\<close>

fun firstSeen :: "string list \<Rightarrow> (string \<times> string) list \<Rightarrow> (string \<times> string) list" where
  "firstSeen seen [] = []"
| "firstSeen seen ((t, ty) # cs) =
     (if t \<in> set seen then firstSeen seen cs else (t, ty) # firstSeen (t # seen) cs)"

definition newUnder :: "string \<Rightarrow> (string \<times> string) list \<Rightarrow> nat" where
  "newUnder ty cs = length (filter (\<lambda>c. snd c = ty) (firstSeen [] cs))"

text \<open>
  The number that the next new text under a type is given, when the type is not a name
  of \<^verbatim>\<open>Object.prototype\<close>.
\<close>

definition nextCounter :: "registry \<Rightarrow> string \<Rightarrow> nat" where
  "nextCounter r ty =
     (case pseudonymCounters r ty of
        Some (Num n) \<Rightarrow> if n = 0 then 1 else n
      | _ \<Rightarrow> 1)"

text \<open>The text and the prediction stream of the end-to-end scenario.\<close>

definition scenarioText :: string where
  "scenarioText = ''John Smith lives at 123 Main St. Contact John Smith at 555-1234.''"

definition scenarioPredictions :: "prediction list" where
  "scenarioPredictions =
     [\<lparr>word = ''John'', entity = ''B-PERSON''\<rparr>, \<lparr>word = '' Smith'', entity = ''I-PERSON''\<rparr>,
      \<lparr>word = '' 123'', entity = ''B-LOCATION''\<rparr>, \<lparr>word = '' Main'', entity = ''I-LOCATION''\<rparr>,
      \<lparr>word = '' St'', entity = ''I-LOCATION''\<rparr>,
      \<lparr>word = '' John'', entity = ''B-PERSON''\<rparr>, \<lparr>word = '' Smith'', entity = ''I-PERSON''\<rparr>,
      \<lparr>word = '' 555'', entity = ''B-PHONE''\<rparr>, \<lparr>word = ''-'', entity = ''I-PHONE''\<rparr>,
      \<lparr>word = ''1234'', entity = ''I-PHONE''\<rparr>]"

text \<open>The prediction stream of the merge example.\<close>

definition mergeExample :: "prediction list" where
  "mergeExample =
     [\<lparr>word = ''John'', entity = ''B-PER''\<rparr>, \<lparr>word = '' Smith'', entity = ''I-PER''\<rparr>,
      \<lparr>word = '' works'', entity = ''O''\<rparr>, \<lparr>word = ''London'', entity = ''B-LOC''\<rparr>]"

section \<open>The fuzzy matcher builder\<close>

lemma isWordChar_not_meta: "isWordChar c \<Longrightarrow> \<not> isRegexMeta c"
  by (auto simp: isWordChar_def isAlnum_def isLower_def isUpper_def isDigit_def isRegexMeta_def)

lemma escapeRegexChars_word: "list_all isWordChar s \<Longrightarrow> escapeRegexChars s = s"
  by (induction s) (simp_all add: escapeRegexChars_def isWordChar_not_meta)

lemma patternLoop_eq: "patternLoop cs p = p @ concat (map (\<lambda>c. c # gapSource) cs)"
  by (induction cs arbitrary: p) simp_all

lemma compileLiterals_pattern:
  "list_all isWordChar cs \<Longrightarrow> compileLiterals (concat (map (\<lambda>c. c # gapSource) cs)) = Some cs"
  by (induction cs) simp_all

lemma buildFuzzyRegex_eq:
  "buildFuzzyRegex s =
     (if filter isWordChar s = [] then None
      else Some (RegExp (concat (map (\<lambda>c. c # gapSource) (filter isWordChar s)))
                  (filter isWordChar s)))"
proof -
  have w: "list_all isWordChar (filter isWordChar s)"
    by (simp add: list_all_iff)
  show ?thesis
  proof (cases "filter isWordChar s")
    case Nil
    then show ?thesis by (simp add: buildFuzzyRegex_def)
  next
    case (Cons c cs)
    with w have "list_all isWordChar (c # cs)" by simp
    then show ?thesis
      using Cons escapeRegexChars_word [of "c # cs"] compileLiterals_pattern [of "c # cs"]
      by (simp add: buildFuzzyRegex_def Let_def patternLoop_eq newRegExp_def
          del: compileLiterals.simps)
  qed
qed

text \<open>
  C7, as amended. The builder strips the characters outside \<^verbatim>\<open>\w\<close>, that is outside
  \<^verbatim>\<open>[A-Za-z0-9_]\<close>: the underscore stays. It returns \<^verbatim>\<open>null\<close> exactly when no word
  character is left, and otherwise the expression whose pattern is written from the
  word characters of the span text only, in their order, each followed by
  \<^verbatim>\<open>[^a-zA-Z0-9]*\<close>; the compilation of such a pattern never fails.
\<close>

theorem buildFuzzyRegex_word_characters:
  "buildFuzzyRegex s =
     (if filter isWordChar s = [] then None
      else Some (RegExp (concat (map (\<lambda>c. c # gapSource) (filter isWordChar s)))
                  (filter isWordChar s)))"
  by (rule buildFuzzyRegex_eq)

text \<open>
  C7 as stated fails: the text of three underscores has no alphanumeric character and
  the builder returns an expression for it; and the expression for \<^verbatim>\<open>a_b\<close> has the
  underscore among its literals, which are not the alphanumeric characters alone.
\<close>

theorem buildFuzzyRegex_underscore_counterexample:
  "filter isAlnum ''___'' = [] \<and> buildFuzzyRegex ''___'' \<noteq> None \<and>
   map_option literals (buildFuzzyRegex ''a_b'') = Some ''a_b'' \<and>
   filter isAlnum ''a_b'' = ''ab''"
  by code_simp

section \<open>The merger\<close>

lemma mergeLoop_skip:
  "cleanWord e = [] \<Longrightarrow> mergeLoop (xs @ e # ys) m c = mergeLoop (xs @ ys) m c"
  by (induction xs arbitrary: m c) (simp_all add: Let_def split: option.split)

lemma spanTypes_open:
  "map spanType (pushCurrent (mergeLoop ps m (Some c))) =
     map spanType m
     @ remdups_adj (spanType c # map entityType (filter (\<lambda>p. cleanWord p \<noteq> []) ps))"
  by (induction ps arbitrary: m c) (simp_all add: Let_def)

lemma spanTypes_idle:
  "map spanType (pushCurrent (mergeLoop ps m None)) =
     map spanType m @ remdups_adj (map entityType (filter (\<lambda>p. cleanWord p \<noteq> []) ps))"
  by (induction ps arbitrary: m) (simp_all add: Let_def spanTypes_open)

lemma spanText_nonempty:
  "list_all (\<lambda>s. spanText s \<noteq> []) m \<Longrightarrow>
   (case c of None \<Rightarrow> True | Some cur \<Rightarrow> spanText cur \<noteq> []) \<Longrightarrow>
   list_all (\<lambda>s. spanText s \<noteq> []) (pushCurrent (mergeLoop ps m c))"
  by (induction ps arbitrary: m c) (auto simp: Let_def split: option.splits)

text \<open>
  With an accumulator open, the output is what was pushed before, then the span of the
  accumulator, then the spans opened by later predictions, in their order.
\<close>

lemma openers_open:
  "\<exists>ops cur' tl. pushCurrent (mergeLoop ps m (Some cur)) = m @ cur' # tl \<and>
      spanType cur' = spanType cur \<and> prefix (spanText cur) (spanText cur') \<and>
      subseq ops ps \<and> list_all2 opens ops tl"
proof (induction ps arbitrary: m cur)
  case Nil
  show ?case by simp
next
  case (Cons p ps)
  show ?case
  proof (cases "cleanWord p = []")
    case True
    from Cons.IH [of m cur] obtain ops cur' tl where
      "pushCurrent (mergeLoop ps m (Some cur)) = m @ cur' # tl" "spanType cur' = spanType cur"
      "prefix (spanText cur) (spanText cur')" "subseq ops ps" "list_all2 opens ops tl"
      by blast
    with True show ?thesis
      by (auto simp: Let_def)
  next
    case False
    show ?thesis
    proof (cases "spanType cur = entityType p")
      case True
      from Cons.IH [of m "cur\<lparr>spanText := spanText cur @ cleanWord p\<rparr>"]
      obtain ops cur' tl where
        h: "pushCurrent (mergeLoop ps m (Some (cur\<lparr>spanText := spanText cur @ cleanWord p\<rparr>)))
             = m @ cur' # tl"
        "spanType cur' = spanType cur"
        "prefix (spanText cur @ cleanWord p) (spanText cur')"
        "subseq ops ps" "list_all2 opens ops tl"
        by auto
      from h(3) have "prefix (spanText cur) (spanText cur')"
        using append_prefixD by blast
      with h True False show ?thesis
        by (auto simp: Let_def)
    next
      case diff: False
      from Cons.IH [of "m @ [cur]" "\<lparr>spanType = entityType p, spanText = cleanWord p\<rparr>"]
      obtain ops cur' tl where
        h: "pushCurrent (mergeLoop ps (m @ [cur])
               (Some \<lparr>spanType = entityType p, spanText = cleanWord p\<rparr>))
             = (m @ [cur]) @ cur' # tl"
        "spanType cur' = entityType p" "prefix (cleanWord p) (spanText cur')"
        "subseq ops ps" "list_all2 opens ops tl"
        by auto
      have "subseq (p # ops) (p # ps)" using h(4) by simp
      moreover have "list_all2 opens (p # ops) (cur' # tl)"
        using h False by (simp add: opens_def)
      moreover have "pushCurrent (mergeLoop (p # ps) m (Some cur)) = m @ cur # (cur' # tl)"
        using h(1) False diff by (simp add: Let_def)
      ultimately show ?thesis by blast
    qed
  qed
qed

lemma openers_idle:
  "\<exists>ops tl. pushCurrent (mergeLoop ps m None) = m @ tl \<and> subseq ops ps \<and> list_all2 opens ops tl"
proof (induction ps arbitrary: m)
  case Nil
  show ?case by simp
next
  case (Cons p ps)
  show ?case
  proof (cases "cleanWord p = []")
    case True
    from Cons.IH [of m] obtain ops tl where
      "pushCurrent (mergeLoop ps m None) = m @ tl" "subseq ops ps" "list_all2 opens ops tl"
      by blast
    with True show ?thesis
      by (auto simp: Let_def)
  next
    case False
    from openers_open [of ps m "\<lparr>spanType = entityType p, spanText = cleanWord p\<rparr>"]
    obtain ops cur' tl where
      h: "pushCurrent (mergeLoop ps m (Some \<lparr>spanType = entityType p, spanText = cleanWord p\<rparr>))
           = m @ cur' # tl"
      "spanType cur' = entityType p" "prefix (cleanWord p) (spanText cur')"
      "subseq ops ps" "list_all2 opens ops tl"
      by auto
    have "subseq (p # ops) (p # ps)" using h(4) by simp
    moreover have "list_all2 opens (p # ops) (cur' # tl)"
      using h False by (simp add: opens_def)
    moreover have "pushCurrent (mergeLoop (p # ps) m None) = m @ (cur' # tl)"
      using h(1) False by (simp add: Let_def)
    ultimately show ?thesis by blast
  qed
qed

text \<open>
  C2, as amended. The merger has no notion of an outside label: \<^verbatim>\<open>O\<close> is a type like
  any other. A token labelled \<^verbatim>\<open>O\<close> whose cleaned text is not empty flushes an open
  accumulator of another type, opens an accumulator of type \<^verbatim>\<open>O\<close> and is emitted as a
  span. For every prediction stream the types of the emitted spans are the types of the
  tokens with a non-empty cleaned text, adjacent repetitions counted once; and the
  stream of the merge example gives exactly the three spans
  (PER, JohnSmith), (O, works), (LOC, London).
\<close>

theorem outside_label_is_a_type:
  "map spanType (aggressiveMergeTokens (Some ps)) =
     remdups_adj (map entityType (filter (\<lambda>p. cleanWord p \<noteq> []) ps)) \<and>
   aggressiveMergeTokens (Some mergeExample) =
     [\<lparr>spanType = ''PER'', spanText = ''JohnSmith''\<rparr>,
      \<lparr>spanType = ''O'', spanText = ''works''\<rparr>,
      \<lparr>spanType = ''LOC'', spanText = ''London''\<rparr>]"
proof
  show "map spanType (aggressiveMergeTokens (Some ps)) =
     remdups_adj (map entityType (filter (\<lambda>p. cleanWord p \<noteq> []) ps))"
    using spanTypes_idle [of ps "[]"] by (simp add: aggressiveMergeTokens_def)
  show "aggressiveMergeTokens (Some mergeExample) =
     [\<lparr>spanType = ''PER'', spanText = ''JohnSmith''\<rparr>,
      \<lparr>spanType = ''O'', spanText = ''works''\<rparr>,
      \<lparr>spanType = ''LOC'', spanText = ''London''\<rparr>]"
    by code_simp
qed

text \<open>
  C2 as stated fails: on the stream of the merge example the merger does not return the
  two spans (PER, JohnSmith), (LOC, London); its output has a span of type \<^verbatim>\<open>O\<close>.
\<close>

theorem outside_token_emitted_counterexample:
  "aggressiveMergeTokens
     (Some [\<lparr>word = ''John'', entity = ''B-PER''\<rparr>, \<lparr>word = '' Smith'', entity = ''I-PER''\<rparr>,
            \<lparr>word = '' works'', entity = ''O''\<rparr>, \<lparr>word = ''London'', entity = ''B-LOC''\<rparr>])
     \<noteq> [\<lparr>spanType = ''PER'', spanText = ''JohnSmith''\<rparr>,
         \<lparr>spanType = ''LOC'', spanText = ''London''\<rparr>] \<and>
   \<lparr>spanType = ''O'', spanText = ''works''\<rparr> \<in> set (aggressiveMergeTokens
     (Some [\<lparr>word = ''John'', entity = ''B-PER''\<rparr>, \<lparr>word = '' Smith'', entity = ''I-PER''\<rparr>,
            \<lparr>word = '' works'', entity = ''O''\<rparr>, \<lparr>word = ''London'', entity = ''B-LOC''\<rparr>]))"
  by code_simp

text \<open>
  C3. A token whose cleaned text is empty is skipped and leaves the accumulation as it
  is: removing it from any prediction stream does not change the output of the merger.
  In particular a token of type T, then a fragment whose cleaned text is empty, then
  another token of type T give one span of type T, whose text is the two cleaned texts
  one after the other.
\<close>

theorem empty_fragment_skipped:
  assumes "cleanWord e = []" and "cleanWord a \<noteq> []" and "entityType b = entityType a"
  shows "aggressiveMergeTokens (Some (xs @ e # ys)) = aggressiveMergeTokens (Some (xs @ ys)) \<and>
    aggressiveMergeTokens (Some [a, e, b]) =
      [\<lparr>spanType = entityType a, spanText = cleanWord a @ cleanWord b\<rparr>]"
proof
  show "aggressiveMergeTokens (Some (xs @ e # ys)) = aggressiveMergeTokens (Some (xs @ ys))"
  proof (cases "xs @ ys = []")
    case True
    with assms(1) show ?thesis by (simp add: aggressiveMergeTokens_def)
  next
    case False
    with mergeLoop_skip [OF assms(1), of xs ys "[]" None] show ?thesis
      by (simp add: aggressiveMergeTokens_def)
  qed
  show "aggressiveMergeTokens (Some [a, e, b]) =
      [\<lparr>spanType = entityType a, spanText = cleanWord a @ cleanWord b\<rparr>]"
    using assms by (simp add: aggressiveMergeTokens_def Let_def)
qed

theorem empty_fragment_skipped_witness:
  "cleanWord \<lparr>word = '' (!)'', entity = ''I-PER''\<rparr> = [] \<and>
   aggressiveMergeTokens
     (Some [\<lparr>word = ''Bay,'', entity = ''B-PER''\<rparr>, \<lparr>word = '' (!)'', entity = ''I-PER''\<rparr>,
            \<lparr>word = ''ona'', entity = ''I-PER''\<rparr>]) =
     [\<lparr>spanType = ''PER'', spanText = ''Bay,ona''\<rparr>] \<and>
   aggressiveMergeTokens
     (Some ([\<lparr>word = ''Bay,'', entity = ''B-PER''\<rparr>] @ \<lparr>word = '' (!)'', entity = ''I-PER''\<rparr>
            # [\<lparr>word = ''ona'', entity = ''I-PER''\<rparr>])) =
     aggressiveMergeTokens
       (Some ([\<lparr>word = ''Bay,'', entity = ''B-PER''\<rparr>] @ [\<lparr>word = ''ona'', entity = ''I-PER''\<rparr>]))"
proof -
  have e: "cleanWord \<lparr>word = '' (!)'', entity = ''I-PER''\<rparr> = []" by code_simp
  have a: "cleanWord \<lparr>word = ''Bay,'', entity = ''B-PER''\<rparr> \<noteq> []" by code_simp
  have t: "entityType \<lparr>word = ''ona'', entity = ''I-PER''\<rparr> =
      entityType \<lparr>word = ''Bay,'', entity = ''B-PER''\<rparr>" by code_simp
  have v: "entityType \<lparr>word = ''Bay,'', entity = ''B-PER''\<rparr> = ''PER'' \<and>
      cleanWord \<lparr>word = ''Bay,'', entity = ''B-PER''\<rparr> = ''Bay,'' \<and>
      cleanWord \<lparr>word = ''ona'', entity = ''I-PER''\<rparr> = ''ona''" by code_simp
  from empty_fragment_skipped [OF e a t, of "[\<lparr>word = ''Bay,'', entity = ''B-PER''\<rparr>]"
      "[\<lparr>word = ''ona'', entity = ''I-PER''\<rparr>]"] e v
  show ?thesis by auto
qed

text \<open>
  C10. The merger returns the empty list for a null and for an empty prediction list;
  every span it emits has a non-empty text; and the emitted spans are opened, one
  each and in the same order, by predictions of a subsequence of the input.
\<close>

theorem merger_well_formed:
  "aggressiveMergeTokens None = [] \<and> aggressiveMergeTokens (Some []) = [] \<and>
   (\<forall>s \<in> set (aggressiveMergeTokens (Some ps)). spanText s \<noteq> []) \<and>
   (\<exists>ops. subseq ops ps \<and> list_all2 opens ops (aggressiveMergeTokens (Some ps)))"
proof -
  have "list_all (\<lambda>s. spanText s \<noteq> []) (pushCurrent (mergeLoop ps [] None))"
    by (rule spanText_nonempty) simp_all
  then have 1: "\<forall>s \<in> set (aggressiveMergeTokens (Some ps)). spanText s \<noteq> []"
    by (simp add: aggressiveMergeTokens_def list_all_iff)
  have 2: "\<exists>ops. subseq ops ps \<and> list_all2 opens ops (aggressiveMergeTokens (Some ps))"
  proof (cases "ps = []")
    case True
    then show ?thesis by (simp add: aggressiveMergeTokens_def)
  next
    case False
    with openers_idle [of ps "[]"] show ?thesis
      by (auto simp: aggressiveMergeTokens_def)
  qed
  from 1 2 show ?thesis by (simp add: aggressiveMergeTokens_def)
qed

theorem merger_well_formed_witness:
  "aggressiveMergeTokens
     (Some [\<lparr>word = ''Bay,'', entity = ''B-PER''\<rparr>, \<lparr>word = ''ona'', entity = ''I-PER''\<rparr>,
            \<lparr>word = '' Paris'', entity = ''B-LOC''\<rparr>]) =
     [\<lparr>spanType = ''PER'', spanText = ''Bay,ona''\<rparr>, \<lparr>spanType = ''LOC'', spanText = ''Paris''\<rparr>] \<and>
   spanText \<lparr>spanType = ''PER'', spanText = ''Bay,ona''\<rparr> \<noteq> [] \<and>
   spanText \<lparr>spanType = ''LOC'', spanText = ''Paris''\<rparr> \<noteq> [] \<and>
   (\<exists>ops. subseq ops [\<lparr>word = ''Bay,'', entity = ''B-PER''\<rparr>, \<lparr>word = ''ona'', entity = ''I-PER''\<rparr>,
            \<lparr>word = '' Paris'', entity = ''B-LOC''\<rparr>] \<and>
      list_all2 opens ops
        [\<lparr>spanType = ''PER'', spanText = ''Bay,ona''\<rparr>, \<lparr>spanType = ''LOC'', spanText = ''Paris''\<rparr>])"
proof -
  have v: "aggressiveMergeTokens
     (Some [\<lparr>word = ''Bay,'', entity = ''B-PER''\<rparr>, \<lparr>word = ''ona'', entity = ''I-PER''\<rparr>,
            \<lparr>word = '' Paris'', entity = ''B-LOC''\<rparr>]) =
     [\<lparr>spanType = ''PER'', spanText = ''Bay,ona''\<rparr>, \<lparr>spanType = ''LOC'', spanText = ''Paris''\<rparr>]"
    by code_simp
  from merger_well_formed [of "[\<lparr>word = ''Bay,'', entity = ''B-PER''\<rparr>,
      \<lparr>word = ''ona'', entity = ''I-PER''\<rparr>, \<lparr>word = '' Paris'', entity = ''B-LOC''\<rparr>]"] v
  show ?thesis by simp
qed

section \<open>The pseudonym registry\<close>

lemma getPseudonym_hit: "mappingHit r t = Some v \<Longrightarrow> getPseudonym t ty r = (v, r)"
  by (simp add: getPseudonym_def)

lemma getPseudonym_miss:
  "mappingHit r t = None \<Longrightarrow>
   getPseudonym t ty r =
     (Str (ty @ ''_'' @ showNumber (fst (postIncrement (initCounter r ty) ty))),
      \<lparr>pseudonymCounters = snd (postIncrement (initCounter r ty) ty),
       pseudonymMapping = (pseudonymMapping r)
         (t \<mapsto> ty @ ''_'' @ showNumber (fst (postIncrement (initCounter r ty) ty)))\<rparr>)"
  by (simp add: getPseudonym_def Let_def split: prod.split)

lemma mappingHit_after:
  "mappingHit (snd (getPseudonym t ty r)) t = Some (fst (getPseudonym t ty r))"
proof (cases "mappingHit r t")
  case None
  then show ?thesis by (simp add: getPseudonym_miss) (simp add: mappingHit_def)
next
  case (Some v)
  then show ?thesis by (simp add: getPseudonym_hit)
qed

lemma pseudonymMapping_other:
  "t' \<noteq> t \<Longrightarrow> pseudonymMapping (snd (getPseudonym t' ty r)) t = pseudonymMapping r t"
  by (cases "mappingHit r t'") (simp_all add: getPseudonym_miss getPseudonym_hit)

lemma mappingHit_other:
  "t' \<noteq> t \<Longrightarrow> mappingHit (snd (getPseudonym t' ty r)) t = mappingHit r t"
  by (simp add: mappingHit_def pseudonymMapping_other)

lemma mappingHit_kept:
  "mappingHit r t = Some v \<Longrightarrow> mappingHit (snd (getPseudonym t' ty r)) t = Some v"
  by (cases "t' = t") (simp_all add: getPseudonym_hit mappingHit_other)

lemma resolveAll_kept:
  "mappingHit r t = Some v \<Longrightarrow> mappingHit (resolveAll cs r) t = Some v"
  by (induction cs arbitrary: r) (auto simp: mappingHit_kept)

text \<open>
  C5. Once a call has assigned or found the pseudonym of a text, then after any further
  calls, a call with the same text under any type returns that pseudonym and the
  registry as it was before the call: no entry of the mapping is changed or removed and
  no counter is incremented.
\<close>

theorem pseudonym_never_changes:
  "getPseudonym t ty' (resolveAll cs (snd (getPseudonym t ty r))) =
     (fst (getPseudonym t ty r), resolveAll cs (snd (getPseudonym t ty r)))"
  by (simp add: getPseudonym_hit resolveAll_kept mappingHit_after)

text \<open>
  The numbering of the new texts of a type, away from the names of
  \<^verbatim>\<open>Object.prototype\<close>.
\<close>

lemma first_sight_pseudonym:
  "mappingHit r t = None \<Longrightarrow> \<not> inherited ty \<Longrightarrow>
   fst (getPseudonym t ty r) = Str (ty @ ''_'' @ showNat (nextCounter r ty))"
  by (simp add: getPseudonym_miss)
    (auto simp: postIncrement_def initCounter_def counterTruthy_def nextCounter_def
      showNumber_def inherited_def split: option.splits jsNumber.splits)

lemma nextCounter_same:
  "mappingHit r t = None \<Longrightarrow> \<not> inherited ty \<Longrightarrow>
   nextCounter (snd (getPseudonym t ty r)) ty = Suc (nextCounter r ty)"
  by (simp add: getPseudonym_miss)
    (auto simp: postIncrement_def initCounter_def counterTruthy_def nextCounter_def
      inherited_def split: option.splits jsNumber.splits)

lemma nextCounter_other:
  "ty' \<noteq> ty \<Longrightarrow> nextCounter (snd (getPseudonym t ty r)) ty' = nextCounter r ty'"
  by (cases "mappingHit r t")
    (auto simp: getPseudonym_miss getPseudonym_hit postIncrement_def initCounter_def
      nextCounter_def split: option.splits jsNumber.splits)

text \<open>
  What a sequence of calls does to a registry in which the texts of \<open>seen\<close> are the ones
  with a pseudonym: the texts of the calls get one too, and the counter of a type grows
  by the number of calls that saw their text for the first time under this type.
\<close>

lemma resolveAll_inv:
  "(\<And>t. \<not> inherited t \<Longrightarrow> (mappingHit r t \<noteq> None) = (t \<in> set seen)) \<Longrightarrow>
   list_all (\<lambda>c. \<not> inherited (fst c)) cs \<Longrightarrow>
   (\<forall>t. \<not> inherited t \<longrightarrow>
      (mappingHit (resolveAll cs r) t \<noteq> None) = (t \<in> set seen \<union> set (map fst cs))) \<and>
   (\<forall>ty. \<not> inherited ty \<longrightarrow> nextCounter (resolveAll cs r) ty =
      nextCounter r ty + length (filter (\<lambda>c. snd c = ty) (firstSeen seen cs)))"
proof (induction cs arbitrary: r seen)
  case Nil
  then show ?case by simp
next
  case (Cons c cs)
  obtain t ty where c: "c = (t, ty)" by (cases c)
  from Cons.prems(2) c have nt: "\<not> inherited t" and rest: "list_all (\<lambda>c. \<not> inherited (fst c)) cs"
    by simp_all
  show ?case
  proof (cases "t \<in> set seen")
    case True
    then obtain v where "mappingHit r t = Some v" using Cons.prems(1) [OF nt] by auto
    then have "snd (getPseudonym t ty r) = r" by (simp add: getPseudonym_hit)
    with Cons.IH [of r seen, OF Cons.prems(1) rest] True c show ?thesis by auto
  next
    case False
    then have miss: "mappingHit r t = None" using Cons.prems(1) [OF nt] by auto
    let ?r = "snd (getPseudonym t ty r)"
    have "(mappingHit ?r u \<noteq> None) = (u \<in> set (t # seen))" if "\<not> inherited u" for u
      using Cons.prems(1) [OF that] mappingHit_after [of t ty r] mappingHit_other [of t u ty r]
      by (cases "u = t") auto
    from Cons.IH [of ?r "t # seen", OF this rest]
    have m: "\<forall>u. \<not> inherited u \<longrightarrow>
        (mappingHit (resolveAll cs ?r) u \<noteq> None) = (u \<in> set (t # seen) \<union> set (map fst cs))"
      and k: "\<forall>ty'. \<not> inherited ty' \<longrightarrow> nextCounter (resolveAll cs ?r) ty' =
        nextCounter ?r ty' + length (filter (\<lambda>c. snd c = ty') (firstSeen (t # seen) cs))"
      by simp_all
    have "nextCounter (resolveAll (c # cs) r) ty' =
        nextCounter r ty' + length (filter (\<lambda>c. snd c = ty') (firstSeen seen (c # cs)))"
      if "\<not> inherited ty'" for ty'
    proof (cases "ty' = ty")
      case True
      with that k nextCounter_same [OF miss, of ty] False c show ?thesis by simp
    next
      case neq: False
      with that k nextCounter_other [of ty' ty t r] False c show ?thesis by simp
    qed
    with m c show ?thesis by simp
  qed
qed

lemma first_sight_numbering:
  assumes "t \<notin> set (map fst cs)" and "\<not> inherited t"
    and "list_all (\<lambda>c. \<not> inherited (fst c)) cs" and "\<not> inherited ty"
  shows "fst (getPseudonym t ty (resolveAll cs emptyRegistry)) =
    Str (ty @ ''_'' @ showNat (Suc (newUnder ty cs)))"
proof -
  have e: "(mappingHit emptyRegistry u \<noteq> None) = (u \<in> set [])" if "\<not> inherited u" for u
    using that by (simp add: mappingHit_def emptyRegistry_def inherited_def)
  from resolveAll_inv [of emptyRegistry "[]" cs, OF e assms(3)] assms
  have m: "mappingHit (resolveAll cs emptyRegistry) t = None"
    and k: "nextCounter (resolveAll cs emptyRegistry) ty = nextCounter emptyRegistry ty + newUnder ty cs"
    by (auto simp: newUnder_def)
  have c1: "nextCounter emptyRegistry ty = 1" by (simp add: nextCounter_def emptyRegistry_def)
  from first_sight_pseudonym [OF m assms(4)] k c1 show ?thesis by simp
qed

lemma first_sight_numbering_example:
  "fst (getPseudonym ''BobRoe'' ''PER''
     (resolveAll [(''JohnSmith'', ''PER''), (''London'', ''LOC''), (''JohnSmith'', ''LOC''),
        (''JaneDoe'', ''PER'')] emptyRegistry)) = Str ''PER_3''"
proof -
  have h: "''BobRoe'' \<notin> set (map fst [(''JohnSmith'', ''PER''), (''London'', ''LOC''),
       (''JohnSmith'', ''LOC''), (''JaneDoe'', ''PER'')])"
    by simp
  have i: "\<not> inherited ''BobRoe''" "\<not> inherited ''PER''"
    "list_all (\<lambda>c. \<not> inherited (fst c)) [(''JohnSmith'', ''PER''), (''London'', ''LOC''),
       (''JohnSmith'', ''LOC''), (''JaneDoe'', ''PER'')]"
    by code_simp+
  have n: "''PER'' @ ''_'' @ showNat (Suc (newUnder ''PER'' [(''JohnSmith'', ''PER''),
       (''London'', ''LOC''), (''JohnSmith'', ''LOC''), (''JaneDoe'', ''PER'')])) = ''PER_3''"
    by code_simp
  from first_sight_numbering [OF h i(1) i(3) i(2)] n show ?thesis by simp
qed

text \<open>
  C6, on the code. The numbering fails at the names of \<^verbatim>\<open>Object.prototype\<close>. On the empty
  registry the text \<^verbatim>\<open>constructor\<close>, the first text resolved under PER, does not receive
  \<^verbatim>\<open>PER_1\<close>: the lookup finds the inherited function, which is returned, and nothing is
  stored; the second text under PER then receives \<^verbatim>\<open>PER_1\<close>. And the first text resolved
  under the type \<^verbatim>\<open>constructor\<close> receives \<^verbatim>\<open>constructor_NaN\<close>, the second one
  \<^verbatim>\<open>constructor_1\<close>.
\<close>

theorem inherited_names_break_numbering:
  "fst (getPseudonym ''constructor'' ''PER'' emptyRegistry) = Member Constructor \<and>
   snd (getPseudonym ''constructor'' ''PER'' emptyRegistry) = emptyRegistry \<and>
   fst (getPseudonym ''Alice'' ''PER'' (resolveAll [(''constructor'', ''PER'')] emptyRegistry)) =
     Str ''PER_1'' \<and>
   fst (getPseudonym ''Alice'' ''constructor'' emptyRegistry) = Str ''constructor_NaN'' \<and>
   fst (getPseudonym ''Bob'' ''constructor''
     (resolveAll [(''Alice'', ''constructor'')] emptyRegistry)) = Str ''constructor_1''"
proof -
  have h: "mappingHit emptyRegistry ''constructor'' = Some (Member Constructor)"
    by code_simp
  have a: "getPseudonym ''constructor'' ''PER'' emptyRegistry = (Member Constructor, emptyRegistry)"
    using h by (rule getPseudonym_hit)
  have b: "fst (getPseudonym ''Alice'' ''PER'' emptyRegistry) = Str ''PER_1''"
    by code_simp
  have c: "fst (getPseudonym ''Alice'' ''constructor'' emptyRegistry) = Str ''constructor_NaN''"
    by code_simp
  have d: "fst (getPseudonym ''Bob'' ''constructor''
     (resolveAll [(''Alice'', ''constructor'')] emptyRegistry)) = Str ''constructor_1''"
    by code_simp
  from a b c d show ?thesis by simp
qed

section \<open>The pipeline\<close>

lemma anonymizeLoop_step:
  "spanText obj \<noteq> [] \<Longrightarrow>
   anonymizeLoop (obj # objs) doc r =
     (case buildFuzzyRegex (spanText obj) of
        None \<Rightarrow> anonymizeLoop objs doc (snd (getPseudonym (spanText obj) (spanType obj) r))
      | Some rx \<Rightarrow>
          (case replace rx (fst (getPseudonym (spanText obj) (spanType obj) r)) doc of
             Inl e \<Rightarrow> (Inl e, snd (getPseudonym (spanText obj) (spanType obj) r))
           | Inr replaced \<Rightarrow>
               anonymizeLoop objs replaced
                 (snd (getPseudonym (spanText obj) (spanType obj) r))))"
  by (cases "getPseudonym (spanText obj) (spanType obj) r")
    (simp add: Let_def split: option.split sum.split)

lemma anonymizeLoop_empty_entry:
  "pseudonymMapping r [] = None \<Longrightarrow>
   pseudonymMapping (snd (anonymizeLoop objs doc r)) [] = None"
proof (induction objs arbitrary: doc r)
  case Nil
  then show ?case by simp
next
  case (Cons obj objs)
  show ?case
  proof (cases "spanText obj = []")
    case True
    with Cons show ?thesis by simp
  next
    case False
    then have "pseudonymMapping (snd (getPseudonym (spanText obj) (spanType obj) r)) [] = None"
      using Cons.prems by (simp add: pseudonymMapping_other)
    with False Cons.IH show ?thesis
      by (simp add: anonymizeLoop_step split: option.split sum.split del: anonymizeLoop.simps)
  qed
qed

text \<open>
  C4, as amended. \<open>getPseudonym\<close> has no check for the empty text; the check is in the
  pipeline, before the call. For every entity type, a span with the empty text is
  skipped by the loop of \<open>anonymizeText\<close>: no pseudonym is resolved for it, and the
  working text and the registry, its counters included, go on to the remaining spans
  as they are. And a run of \<open>anonymizeText\<close>, on any text and prediction stream, leaves
  the mapping without an entry for the empty text when it had none.
\<close>

theorem empty_text_skipped_by_pipeline:
  "anonymizeLoop (\<lparr>spanType = ty, spanText = []\<rparr> # objs) doc r = anonymizeLoop objs doc r \<and>
   (pseudonymMapping r [] = None \<longrightarrow>
      pseudonymMapping (snd (anonymizeText preds doc r)) [] = None)"
  by (simp add: anonymizeText_def anonymizeLoop_empty_entry)

theorem empty_text_skipped_by_pipeline_witness:
  "anonymizeLoop [\<lparr>spanType = ''PER'', spanText = []\<rparr>] ''Bay, ona'' emptyRegistry =
     (Inr ''Bay, ona'', emptyRegistry) \<and>
   pseudonymMapping emptyRegistry [] = None \<and>
   pseudonymMapping (snd (anonymizeText (Some [\<lparr>word = ''Bay,'', entity = ''B-PER''\<rparr>,
       \<lparr>word = '' ona'', entity = ''I-PER''\<rparr>]) ''Bay, ona'' emptyRegistry)) [] = None"
proof -
  have h: "pseudonymMapping emptyRegistry [] = None" by (simp add: emptyRegistry_def)
  from empty_text_skipped_by_pipeline [of "''PER''" "[]" "''Bay, ona''" emptyRegistry
      "Some [\<lparr>word = ''Bay,'', entity = ''B-PER''\<rparr>, \<lparr>word = '' ona'', entity = ''I-PER''\<rparr>]"] h
  show ?thesis by simp
qed

text \<open>
  C4 as stated fails: on the empty registry \<open>getPseudonym\<close> of the empty text under PER
  returns the pseudonym \<^verbatim>\<open>PER_1\<close>, stores it under the empty text and sets the counter
  of PER to 2.
\<close>

theorem getPseudonym_empty_text_counterexample:
  "fst (getPseudonym [] ''PER'' emptyRegistry) = Str ''PER_1'' \<and>
   pseudonymMapping (snd (getPseudonym [] ''PER'' emptyRegistry)) [] = Some ''PER_1'' \<and>
   pseudonymCounters emptyRegistry ''PER'' = None \<and>
   pseudonymCounters (snd (getPseudonym [] ''PER'' emptyRegistry)) ''PER'' = Some (Num 2)"
  by code_simp

text \<open>
  An entity text that is a name of \<^verbatim>\<open>Object.prototype\<close> in the pipeline: the text
  \<^verbatim>\<open>constructor\<close> is replaced by itself and stays in the output; the text \<^verbatim>\<open>valueOf\<close>
  ends the run with a \<^verbatim>\<open>TypeError\<close>.
\<close>

lemma inherited_text_in_pipeline:
  "fst (anonymizeText (Some [\<lparr>word = '' constructor'', entity = ''B-JOBTITLE''\<rparr>])
     ''A constructor.'' emptyRegistry) = Inr ''A constructor.'' \<and>
   fst (anonymizeText (Some [\<lparr>word = '' valueOf'', entity = ''B-JOBTITLE''\<rparr>])
     ''A valueOf.'' emptyRegistry) = Inl TypeError"
  by code_simp

section \<open>Matching and replacement\<close>

lemma matchGap_end: "matchGap [] s = Some (length (takeWhile (\<lambda>c. \<not> isAlnum c) s))"
  by (induction s) simp_all

lemma getSubstitution_plain:
  "CHR ''$'' \<notin> set replacement \<Longrightarrow>
   getSubstitution matched preceding following replacement = replacement"
  by (induction matched preceding following replacement rule: getSubstitution.induct) auto

text \<open>A replacement without a dollar sign does not depend on the text already passed.\<close>

lemma replaceLoop_Cons:
  "replaceLoop lits replacement preceding (x # xs) =
     (case matchFrom lits (x # xs) of
        None \<Rightarrow> x # replaceLoop lits replacement (preceding @ [x]) xs
      | Some n \<Rightarrow>
          if n = 0
          then getSubstitution [] preceding (x # xs) replacement
               @ x # replaceLoop lits replacement (preceding @ [x]) xs
          else getSubstitution (take n (x # xs)) preceding (drop n (x # xs)) replacement
               @ replaceLoop lits replacement (preceding @ take n (x # xs)) (drop n (x # xs)))"
  by simp

lemma replaceLoop_plain:
  assumes "CHR ''$'' \<notin> set replacement"
  shows "replaceLoop lits replacement preceding s = replaceLoop lits replacement [] s"
proof (induction s arbitrary: preceding rule: length_induct)
  case (1 s)
  define g where "g = replaceLoop lits replacement []"
  show ?case
  proof (cases s)
    case Nil
    then show ?thesis using assms by (simp add: getSubstitution_plain split: option.split)
  next
    case (Cons x xs)
    have tl: "replaceLoop lits replacement p xs = g xs" for p
    proof -
      have "length xs < length s" using Cons by simp
      with 1 show ?thesis unfolding g_def by blast
    qed
    have dr: "replaceLoop lits replacement p (drop n (x # xs)) = g (drop n (x # xs))"
      if "0 < n" for p n
    proof -
      have "length (drop n (x # xs)) < length s" using Cons that by simp
      with 1 show ?thesis unfolding g_def by blast
    qed
    have l: "replaceLoop lits replacement p (x # xs) =
        (case matchFrom lits (x # xs) of
           None \<Rightarrow> x # g xs
         | Some n \<Rightarrow> if n = 0 then replacement @ x # g xs
             else replacement @ g (drop n (x # xs)))" for p
    proof (cases "matchFrom lits (x # xs)")
      case None
      then show ?thesis
        unfolding replaceLoop_Cons by (simp only: option.case tl)
    next
      case (Some n)
      show ?thesis
      proof (cases "n = 0")
        case True
        with Some show ?thesis
          unfolding replaceLoop_Cons getSubstitution_plain [OF assms]
          by (simp only: option.case tl refl if_True)
      next
        case False
        then have "0 < n" by simp
        from dr [OF this] Some False show ?thesis
          unfolding replaceLoop_Cons getSubstitution_plain [OF assms]
          by (simp only: option.case if_False)
      qed
    qed
    from l [of preceding] l [of "[]"] Cons show ?thesis by (simp only:)
  qed
qed

text \<open>No match starts at a character that is not the first literal.\<close>

lemma replaceLoop_no_start:
  "list_all (\<lambda>x. canonicalize x \<noteq> canonicalize c) pre \<Longrightarrow>
   replaceLoop (c # cs) replacement preceding (pre @ s) =
     pre @ replaceLoop (c # cs) replacement (preceding @ pre) s"
  by (induction pre arbitrary: preceding) simp_all

lemma replaceLoop_match:
  "matchFrom lits s = Some n \<Longrightarrow> 0 < n \<Longrightarrow> s \<noteq> [] \<Longrightarrow>
   replaceLoop lits replacement preceding s =
     getSubstitution (take n s) preceding (drop n s) replacement
     @ replaceLoop lits replacement (preceding @ take n s) (drop n s)"
  by (cases s) simp_all

lemma char_eq_char_of: "(c = char_of (n::nat)) = (take_bit 8 n = of_char c)"
  using char_of_eq_iff [of n c] by auto

lemmas charEval = canonicalize_def isAlnum_def isLower_def isUpper_def isDigit_def
  char_of_eq_iff char_eq_char_of

lemma match_John_space_Smith:
  "matchFrom ''JohnSmith'' (''John Smith'' @ post) =
     Some (10 + length (takeWhile (\<lambda>c. \<not> isAlnum c) post))"
  by (simp add: charEval matchGap_end)

lemma match_John_hyphen_Smith:
  "matchFrom ''JohnSmith'' (''John-Smith'' @ post) =
     Some (10 + length (takeWhile (\<lambda>c. \<not> isAlnum c) post))"
  by (simp add: charEval matchGap_end)

lemma match_JOHN_SMITH:
  "matchFrom ''JohnSmith'' (''JOHN SMITH'' @ post) =
     Some (10 + length (takeWhile (\<lambda>c. \<not> isAlnum c) post))"
  by (simp add: charEval matchGap_end)

lemma build_JohnSmith:
  "buildFuzzyRegex ''JohnSmith'' =
     Some (RegExp (concat (map (\<lambda>c. c # gapSource) ''JohnSmith'')) ''JohnSmith'')"
  by code_simp

text \<open>
  C9. The builder returns an expression for the merged text \<^verbatim>\<open>JohnSmith\<close>. For each of
  the strings \<^verbatim>\<open>John Smith\<close>, \<^verbatim>\<open>John-Smith\<close> and \<^verbatim>\<open>JOHN SMITH\<close>, followed by any text, the
  expression matches at the start of the string: the match is the whole string and the
  run of characters outside \<^verbatim>\<open>[a-zA-Z0-9]\<close> that follows it. And when the string occurs
  in a text after a part with no letter J or j, the global replacement by a pseudonym
  without a dollar sign keeps this part, puts the pseudonym in the place of the match
  and goes on in the rest of the text.
\<close>

theorem fuzzy_tolerance:
  assumes "s = ''John Smith'' \<or> s = ''John-Smith'' \<or> s = ''JOHN SMITH''"
    and "list_all (\<lambda>x. canonicalize x \<noteq> CHR ''J'') pre"
    and "CHR ''$'' \<notin> set pseudonym"
  shows "\<exists>rx. buildFuzzyRegex ''JohnSmith'' = Some rx \<and>
    matchFrom (literals rx) (s @ post) =
      Some (length s + length (takeWhile (\<lambda>c. \<not> isAlnum c) post)) \<and>
    replaceAll rx pseudonym (pre @ s @ post) =
      pre @ pseudonym @ replaceAll rx pseudonym (dropWhile (\<lambda>c. \<not> isAlnum c) post)"
proof -
  let ?k = "length (takeWhile (\<lambda>c. \<not> isAlnum c) post)"
  let ?lits = "''JohnSmith''"
  have len: "length s = 10" and ne: "s @ post \<noteq> []"
    using assms(1) by auto
  have m: "matchFrom ?lits (s @ post) = Some (length s + ?k)"
    using assms(1) match_John_space_Smith [of post] match_John_hyphen_Smith [of post]
      match_JOHN_SMITH [of post]
    by auto
  have J: "canonicalize CHR ''J'' = CHR ''J''"
    by (simp add: charEval)
  have "replaceLoop ?lits pseudonym [] (pre @ s @ post) =
      pre @ replaceLoop ?lits pseudonym ([] @ pre) (s @ post)"
    using assms(2) by (intro replaceLoop_no_start) (simp add: J)
  also have "replaceLoop ?lits pseudonym ([] @ pre) (s @ post) =
      getSubstitution (take (length s + ?k) (s @ post)) ([] @ pre)
        (drop (length s + ?k) (s @ post)) pseudonym
      @ replaceLoop ?lits pseudonym (([] @ pre) @ take (length s + ?k) (s @ post))
          (drop (length s + ?k) (s @ post))"
    using m ne len by (intro replaceLoop_match) simp_all
  also have "\<dots> = pseudonym @ replaceLoop ?lits pseudonym []
      (drop (length s + ?k) (s @ post))"
    using assms(3) replaceLoop_plain [OF assms(3)] by (simp add: getSubstitution_plain)
  also have "drop (length s + ?k) (s @ post) = dropWhile (\<lambda>c. \<not> isAlnum c) post"
    by (simp add: dropWhile_eq_drop)
  finally have r: "replaceLoop ?lits pseudonym [] (pre @ s @ post) =
      pre @ pseudonym @ replaceLoop ?lits pseudonym [] (dropWhile (\<lambda>c. \<not> isAlnum c) post)" .
  from m r show ?thesis
    by (simp add: build_JohnSmith replaceAll_def)
qed

theorem fuzzy_tolerance_witness:
  "list_all (\<lambda>x. canonicalize x \<noteq> CHR ''J'') ''Dear '' \<and> CHR ''$'' \<notin> set ''PER_1'' \<and>
   (\<exists>rx. buildFuzzyRegex ''JohnSmith'' = Some rx \<and>
      matchFrom (literals rx) (''John-Smith'' @ '', hello'') = Some 12 \<and>
      replaceAll rx ''PER_1'' (''Dear '' @ ''John-Smith'' @ '', hello'') = ''Dear PER_1hello'')"
proof -
  have h1: "''John-Smith'' = ''John Smith'' \<or> ''John-Smith'' = ''John-Smith'' \<or>
      ''John-Smith'' = ''JOHN SMITH''" by simp
  have h2: "list_all (\<lambda>x. canonicalize x \<noteq> CHR ''J'') ''Dear ''" by code_simp
  have h3: "CHR ''$'' \<notin> set ''PER_1''" by simp
  from fuzzy_tolerance [OF h1 h2 h3, of "'', hello''"] obtain rx where
    b: "buildFuzzyRegex ''JohnSmith'' = Some rx"
    and m: "matchFrom (literals rx) (''John-Smith'' @ '', hello'') =
      Some (length ''John-Smith'' + length (takeWhile (\<lambda>c. \<not> isAlnum c) '', hello''))"
    and r: "replaceAll rx ''PER_1'' (''Dear '' @ ''John-Smith'' @ '', hello'') =
      ''Dear '' @ ''PER_1'' @ replaceAll rx ''PER_1'' (dropWhile (\<lambda>c. \<not> isAlnum c) '', hello'')"
    by blast
  from b have rx: "rx = RegExp (concat (map (\<lambda>c. c # gapSource) ''JohnSmith'')) ''JohnSmith''"
    by (simp add: build_JohnSmith)
  have k: "length ''John-Smith'' + length (takeWhile (\<lambda>c. \<not> isAlnum c) '', hello'') = 12"
    by code_simp
  have t: "''Dear '' @ ''PER_1'' @ replaceAll
      (RegExp (concat (map (\<lambda>c. c # gapSource) ''JohnSmith'')) ''JohnSmith'') ''PER_1''
      (dropWhile (\<lambda>c. \<not> isAlnum c) '', hello'') = ''Dear PER_1hello''"
    by code_simp
  from b m r show ?thesis
    unfolding rx k t using h2 h3 by blast
qed

section \<open>Spans without a match, and the end-to-end scenario\<close>

lemma isWordChar_a: "isWordChar CHR ''a''"
  by (simp add: isWordChar_def isAlnum_def isLower_def)

text \<open>
  C8, as amended. The builder has no cap on the length of the span text: it returns
  \<^verbatim>\<open>null\<close> only for a span text with no word character, and the compilation of the
  pattern it writes does not fail. When the builder returns \<^verbatim>\<open>null\<close> for a span, the
  pipeline skips the replacement of this span only: the working text is left as it is
  and the loop goes on with the remaining spans; the pseudonym of the span has been
  registered before.
\<close>

theorem no_match_skips_only_that_span:
  assumes "buildFuzzyRegex (spanText obj) = None" and "spanText obj \<noteq> []"
  shows "filter isWordChar (spanText obj) = [] \<and>
    anonymizeLoop (obj # objs) doc r =
      anonymizeLoop objs doc (snd (getPseudonym (spanText obj) (spanType obj) r))"
proof
  show "filter isWordChar (spanText obj) = []"
    using assms(1) by (simp add: buildFuzzyRegex_eq split: if_splits)
  show "anonymizeLoop (obj # objs) doc r =
      anonymizeLoop objs doc (snd (getPseudonym (spanText obj) (spanType obj) r))"
    using assms by (simp add: anonymizeLoop_step del: anonymizeLoop.simps)
qed

theorem no_match_skips_only_that_span_witness:
  "buildFuzzyRegex ''...'' = None \<and>
   anonymizeLoop [\<lparr>spanType = ''PER'', spanText = ''...''\<rparr>, \<lparr>spanType = ''LOC'', spanText = ''Paris''\<rparr>]
       ''... in Paris'' emptyRegistry =
     anonymizeLoop [\<lparr>spanType = ''LOC'', spanText = ''Paris''\<rparr>] ''... in Paris''
       (snd (getPseudonym ''...'' ''PER'' emptyRegistry)) \<and>
   fst (anonymizeLoop [\<lparr>spanType = ''LOC'', spanText = ''Paris''\<rparr>] ''... in Paris''
       (snd (getPseudonym ''...'' ''PER'' emptyRegistry))) = Inr ''... in LOC_1''"
proof -
  have h1: "buildFuzzyRegex (spanText \<lparr>spanType = ''PER'', spanText = ''...''\<rparr>) = None"
    by code_simp
  have h2: "spanText \<lparr>spanType = ''PER'', spanText = ''...''\<rparr> \<noteq> []"
    by simp
  have v: "fst (anonymizeLoop [\<lparr>spanType = ''LOC'', spanText = ''Paris''\<rparr>] ''... in Paris''
       (snd (getPseudonym ''...'' ''PER'' emptyRegistry))) = Inr ''... in LOC_1''"
    by code_simp
  from no_match_skips_only_that_span [OF h1 h2, of "[\<lparr>spanType = ''LOC'', spanText = ''Paris''\<rparr>]"
      "''... in Paris''" emptyRegistry] h1 v
  show ?thesis by simp
qed

text \<open>
  C8 as stated fails: no length is a cap. For every bound there is a longer span text,
  made of the letter a only, for which the builder returns an expression.
\<close>

theorem no_span_length_cap_counterexample:
  "\<not> (\<exists>cap. \<forall>s. cap < length s \<longrightarrow> buildFuzzyRegex s = None)"
proof
  assume "\<exists>cap. \<forall>s. cap < length s \<longrightarrow> buildFuzzyRegex s = None"
  then obtain cap where c: "\<forall>s. cap < length s \<longrightarrow> buildFuzzyRegex s = None" ..
  have "cap < length (replicate (Suc cap) CHR ''a'')" by simp
  with c have "buildFuzzyRegex (replicate (Suc cap) CHR ''a'') = None" by blast
  moreover have "filter isWordChar (replicate (Suc cap) CHR ''a'') \<noteq> []"
    by (simp add: isWordChar_a)
  ultimately show False
    by (simp add: buildFuzzyRegex_eq del: replicate.simps)
qed

text \<open>
  A match never stops before a character outside \<^verbatim>\<open>[a-zA-Z0-9]\<close>: the pattern ends with
  \<^verbatim>\<open>[^a-zA-Z0-9]*\<close>, which takes the separators that follow the last literal.
\<close>

lemma match_takes_following_separators:
  "matchFrom lits s = Some n \<Longrightarrow> lits \<noteq> [] \<Longrightarrow>
     (case drop n s of [] \<Rightarrow> True | y # ys \<Rightarrow> isAlnum y)"
  and gap_takes_following_separators:
  "matchGap lits' s' = Some n' \<Longrightarrow>
     (case drop n' s' of [] \<Rightarrow> True | y # ys \<Rightarrow> isAlnum y)"
proof (induction lits s and lits' s' arbitrary: n and n' rule: matchFrom_matchGap.induct)
  case (1 s)
  then show ?case by simp
next
  case (2 c cs)
  then show ?case by simp
next
  case (3 c cs x xs)
  then show ?case by (auto split: if_splits)
next
  case (4 cs)
  then show ?case by (cases cs) auto
next
  case (5 cs x xs)
  then show ?case
    by (cases cs) (auto simp: matchGap_end split: if_splits option.splits)
qed

text \<open>
  C1, on the code. For the text and the prediction stream of the scenario the pipeline
  returns \<^verbatim>\<open>PERSON_1lives at LOCATION_1Contact PERSON_1at PHONE_1\<close>: every replacement
  takes the separators that follow the entity with it. One pseudonym is allocated for
  PERSON and used for both occurrences.
\<close>

theorem scenario_output:
  "fst (anonymizeText (Some scenarioPredictions) scenarioText emptyRegistry) =
     Inr ''PERSON_1lives at LOCATION_1Contact PERSON_1at PHONE_1'' \<and>
   fst (anonymizeText (Some scenarioPredictions) scenarioText emptyRegistry) \<noteq>
     Inr ''PERSON_1 lives at LOCATION_1. Contact PERSON_1 at PHONE_1.'' \<and>
   pseudonymMapping (snd (anonymizeText (Some scenarioPredictions) scenarioText emptyRegistry))
     ''JohnSmith'' = Some ''PERSON_1'' \<and>
   pseudonymCounters (snd (anonymizeText (Some scenarioPredictions) scenarioText emptyRegistry))
     ''PERSON'' = Some (Num 2)"
  by code_simp

text \<open>
  The same text with the tokens outside the entities in the stream, labelled \<^verbatim>\<open>O\<close>: they
  are replaced as well, and the separators are lost in the same way.
\<close>

lemma outside_tokens_in_scenario:
  "fst (anonymizeText
     (Some [\<lparr>word = ''John'', entity = ''B-PERSON''\<rparr>, \<lparr>word = '' Smith'', entity = ''I-PERSON''\<rparr>,
        \<lparr>word = '' lives'', entity = ''O''\<rparr>, \<lparr>word = '' at'', entity = ''O''\<rparr>,
        \<lparr>word = '' 123'', entity = ''B-LOCATION''\<rparr>, \<lparr>word = '' Main'', entity = ''I-LOCATION''\<rparr>,
        \<lparr>word = '' St'', entity = ''I-LOCATION''\<rparr>, \<lparr>word = ''.'', entity = ''O''\<rparr>,
        \<lparr>word = '' Contact'', entity = ''O''\<rparr>,
        \<lparr>word = '' John'', entity = ''B-PERSON''\<rparr>, \<lparr>word = '' Smith'', entity = ''I-PERSON''\<rparr>,
        \<lparr>word = '' at'', entity = ''O''\<rparr>,
        \<lparr>word = '' 555'', entity = ''B-PHONE''\<rparr>, \<lparr>word = ''-'', entity = ''I-PHONE''\<rparr>,
        \<lparr>word = ''1234'', entity = ''I-PHONE''\<rparr>, \<lparr>word = ''.'', entity = ''O''\<rparr>])
     scenarioText emptyRegistry) \<noteq>
     Inr ''PERSON_1 lives at LOCATION_1. Contact PERSON_1 at PHONE_1.''"
  by code_simp

end
